theory Spec2Isabelle
  imports Main
begin

section \<open>Heading schema and conversion registration (FormatEngine.init)\<close>

text \<open>
  The registrations that \<open>FormatEngine.init\<close> makes on the editor: the schema items and the
  two converter tables of the data pipeline, each in registration order.
\<close>

record registry =
  items :: "(string \<times> string) list"
  modelToView :: "(string \<times> string) list"
  viewToModel :: "(string \<times> string) list"

text \<open>
  Modelled from the spec: the host's \<open>schema.registerItem\<close> and the two converter builders
  (\<open>BuildModelConverterFor(d).fromElement(m).toElement(v)\<close> and its view counterpart) are
  not under src/. The spec describes each conversion as a pure one-to-one rename table, so a
  registration appends one (from, to) pair and a conversion looks the name up, the earliest
  registration winning.
\<close>

definition registerItem :: "string \<Rightarrow> string \<Rightarrow> registry \<Rightarrow> registry" where
  "registerItem itemName isRegisteredAs r = r\<lparr>items := items r @ [(itemName, isRegisteredAs)]\<rparr>"

definition BuildModelConverterFor :: "string \<Rightarrow> string \<Rightarrow> registry \<Rightarrow> registry" where
  "BuildModelConverterFor fromElement toElement r =
     r\<lparr>modelToView := modelToView r @ [(fromElement, toElement)]\<rparr>"

definition BuildViewConverterFor :: "string \<Rightarrow> string \<Rightarrow> registry \<Rightarrow> registry" where
  "BuildViewConverterFor fromElement toElement r =
     r\<lparr>viewToModel := viewToModel r @ [(fromElement, toElement)]\<rparr>"

definition convertModelToView :: "registry \<Rightarrow> string \<Rightarrow> string option" where
  "convertModelToView r modelName = map_of (modelToView r) modelName"

definition convertViewToModel :: "registry \<Rightarrow> string \<Rightarrow> string option" where
  "convertViewToModel r viewName = map_of (viewToModel r) viewName"

text \<open>\<open>FormatEngine.init\<close>, statement by statement.\<close>

definition init :: "registry \<Rightarrow> registry" where
  "init editor =
     (BuildViewConverterFor ''h4'' ''heading3''
       (BuildViewConverterFor ''h3'' ''heading2''
         (BuildViewConverterFor ''h2'' ''heading1''
           (BuildModelConverterFor ''heading3'' ''h4''
             (BuildModelConverterFor ''heading2'' ''h3''
               (BuildModelConverterFor ''heading1'' ''h2''
                 (registerItem ''heading3'' ''$block''
                   (registerItem ''heading2'' ''$block''
                     (registerItem ''heading1'' ''$block'' editor)))))))))"

text \<open>A concrete editor: one on which the paragraph feature has made its registrations.\<close>

definition paragraph_editor :: registry where
  "paragraph_editor =
     \<lparr>items = [(''paragraph'', ''$block'')], modelToView = [(''paragraph'', ''p'')],
      viewToModel = [(''p'', ''paragraph'')]\<rparr>"

section \<open>The heading command (HeadingCommand)\<close>

subsection \<open>The host's document, as the command reads and changes it\<close>

text \<open>
  Elements are JavaScript objects: the store \<open>elements\<close> maps a reference to the element it
  denotes. Of an element the command reads the name and the position before it; of the
  document it reads the blocks of the selection (in the order \<open>getSelectedBlocks\<close> yields
  them) and the schema, and it changes elements only through batches. \<open>deltas\<close> is the
  document's history: each rename with the batch that made it, oldest first.
\<close>

type_synonym ref = nat
type_synonym batch = nat
type_synonym position = "nat list"

record model_element =
  name :: string
  path :: position

record document =
  elements :: "ref \<Rightarrow> model_element"
  selectedBlocks :: "ref list"
  schema :: "string \<Rightarrow> position \<Rightarrow> bool"
  batches :: nat
  deltas :: "(batch \<times> ref \<times> string) list"

text \<open>
  Modelled from the spec: the host primitives below are not under src/.
  \<open>block.is(n)\<close> tests the block's type name; \<open>Position.createBefore(block)\<close> is the
  position the schema is asked about; \<open>Range.createIn(block)\<close> added to a new selection
  spans the block's own contained range, so its selected blocks are the block alone;
  \<open>document.batch()\<close> makes a fresh batch; \<open>batch.rename\<close> gives the element its new name
  and records the change under the batch.
\<close>

definition element_is :: "model_element \<Rightarrow> string \<Rightarrow> bool" where
  "element_is block n \<longleftrightarrow> name block = n"

definition createBefore :: "model_element \<Rightarrow> position" where
  "createBefore block = path block"

definition createIn :: "ref \<Rightarrow> ref list" where
  "createIn block = [block]"

definition document_batch :: "document \<Rightarrow> batch \<times> document" where
  "document_batch doc = (batches doc, doc\<lparr>batches := Suc (batches doc)\<rparr>)"

definition batch_rename :: "batch \<Rightarrow> ref \<Rightarrow> string \<Rightarrow> document \<Rightarrow> document" where
  "batch_rename b block newName doc =
     doc\<lparr>elements := (elements doc)(block := (elements doc block)\<lparr>name := newName\<rparr>),
         deltas := deltas doc @ [(b, block, newName)]\<rparr>"

text \<open>
  Modelled from the spec: the paragraph command that \<open>editor.execute('paragraph', ...)\<close>
  runs is not under src/. The spec has it revert the blocks of the selection it is given to
  the default block type, inside the batch it is given.
\<close>

fun paragraph_rename :: "batch \<Rightarrow> ref list \<Rightarrow> document \<Rightarrow> document" where
  "paragraph_rename b [] doc = doc"
| "paragraph_rename b (block # blocks) doc =
     paragraph_rename b blocks
       (if \<not> element_is (elements doc block) ''paragraph''
        then batch_rename b block ''paragraph'' doc else doc)"

definition execute_paragraph :: "ref list \<Rightarrow> batch \<Rightarrow> document \<Rightarrow> document" where
  "execute_paragraph selection b doc = paragraph_rename b selection doc"

subsection \<open>The command\<close>

record heading_command =
  modelElement :: string
  "value" :: bool
  isEnabled :: bool

record options =
  batch :: "batch option"

text \<open>The constructor: \<open>value\<close> starts false; the base class starts \<open>isEnabled\<close> true.\<close>

definition HeadingCommand :: "string \<Rightarrow> heading_command" where
  "HeadingCommand m = \<lparr>modelElement = m, value = False, isEnabled = True\<rparr>"

text \<open>\<open>first\<close> of the utilities: the first item an iterator yields, or null.\<close>

definition first :: "'a list \<Rightarrow> 'a option" where
  "first xs = (case xs of [] \<Rightarrow> None | x # _ \<Rightarrow> Some x)"

definition checkCanBecomeHeading ::
    "model_element \<Rightarrow> string \<Rightarrow> (string \<Rightarrow> position \<Rightarrow> bool) \<Rightarrow> bool" where
  "checkCanBecomeHeading block heading sch = sch heading (createBefore block)"

definition refreshValue :: "heading_command \<Rightarrow> document \<Rightarrow> heading_command" where
  "refreshValue cmd doc =
     (case first (selectedBlocks doc) of
        None \<Rightarrow> cmd\<lparr>value := False\<rparr>
      | Some block \<Rightarrow> cmd\<lparr>value := element_is (elements doc block) (modelElement cmd)\<rparr>)"

definition checkEnabled :: "heading_command \<Rightarrow> document \<Rightarrow> bool" where
  "checkEnabled cmd doc =
     (case first (selectedBlocks doc) of
        None \<Rightarrow> False
      | Some block \<Rightarrow>
          checkCanBecomeHeading (elements doc block) (modelElement cmd) (schema doc))"

text \<open>
  Modelled from the spec: \<open>refreshState\<close> belongs to the host's command base class, not under
  src/; it re-evaluates the enablement predicate.
\<close>

definition refreshState :: "heading_command \<Rightarrow> document \<Rightarrow> heading_command" where
  "refreshState cmd doc = cmd\<lparr>isEnabled := checkEnabled cmd doc\<rparr>"

text \<open>The listener the constructor attaches to the document's \<open>changesDone\<close> event.\<close>

definition changesDone :: "heading_command \<Rightarrow> document \<Rightarrow> heading_command" where
  "changesDone cmd doc = refreshState (refreshValue cmd doc) doc"

text \<open>
  The body of \<open>_doExecute\<close>. The \<open>for\<close> loop over the filtered blocks is \<open>doExecute_loop\<close>;
  \<open>block.is\<close> is read in the document as the earlier iterations left it.
  \<open>chosen_batch\<close> is \<open>options.batch || document.batch()\<close>, and \<open>eligible_blocks\<close> is the
  array of the selected blocks that pass \<open>checkCanBecomeHeading\<close>, built before the loop
  starts. \<open>shouldRemove\<close> is the value flag as it was when the command was called.
\<close>

fun doExecute_loop ::
    "heading_command \<Rightarrow> bool \<Rightarrow> batch \<Rightarrow> ref list \<Rightarrow> document \<Rightarrow> document" where
  "doExecute_loop cmd shouldRemove b [] doc = doc"
| "doExecute_loop cmd shouldRemove b (block # blocks) doc =
     doExecute_loop cmd shouldRemove b blocks
       (if shouldRemove then
          (if element_is (elements doc block) (modelElement cmd)
           then execute_paragraph (createIn block) b doc
           else doc)
        else if \<not> element_is (elements doc block) (modelElement cmd)
          then batch_rename b block (modelElement cmd) doc
        else doc)"

definition chosen_batch :: "options \<Rightarrow> document \<Rightarrow> batch \<times> document" where
  "chosen_batch opts doc =
     (case batch opts of Some b \<Rightarrow> (b, doc) | None \<Rightarrow> document_batch doc)"

definition eligible_blocks :: "heading_command \<Rightarrow> document \<Rightarrow> ref list" where
  "eligible_blocks cmd doc =
     filter (\<lambda>block. checkCanBecomeHeading (elements doc block) (modelElement cmd) (schema doc))
       (selectedBlocks doc)"

definition doExecute :: "options \<Rightarrow> heading_command \<Rightarrow> document \<Rightarrow> document" where
  "doExecute opts cmd doc =
     (let shouldRemove = value cmd;
          (b, doc1) = chosen_batch opts doc;
          blocks = eligible_blocks cmd doc1
      in doExecute_loop cmd shouldRemove b blocks doc1)"

text \<open>
  Modelled from the spec: \<open>document.enqueueChanges\<close> is the host's, not under src/; it runs
  the callback and then reports the change, on which the listener recomputes the command's
  flags. One execution of the command is therefore the body followed by the listener.
\<close>

definition execute ::
    "options \<Rightarrow> heading_command \<times> document \<Rightarrow> heading_command \<times> document" where
  "execute opts s =
     (let doc' = doExecute opts (fst s) (snd s) in (changesDone (fst s) doc', doc'))"

subsection \<open>Notions used to state the properties\<close>

text \<open>
  The blocks the loop of \<open>_doExecute\<close> reverts when it removes the heading: the eligible
  blocks that have the command's element name.
\<close>

definition target_blocks :: "heading_command \<Rightarrow> document \<Rightarrow> ref list" where
  "target_blocks cmd doc =
     filter (\<lambda>block. element_is (elements doc block) (modelElement cmd)) (eligible_blocks cmd doc)"

text \<open>
  The spec's wording of the revert, to compare \<open>doExecute\<close> with: the paragraph command run
  once per block, each time on a selection that spans that block's own range, all in batch
  \<open>b\<close>.
\<close>

fun revert_each_in_own_range :: "batch \<Rightarrow> ref list \<Rightarrow> document \<Rightarrow> document" where
  "revert_each_in_own_range b [] doc = doc"
| "revert_each_in_own_range b (block # blocks) doc =
     revert_each_in_own_range b blocks (execute_paragraph (createIn block) b doc)"

text \<open>The renames recorded between a document and a later state of it.\<close>

definition new_deltas :: "document \<Rightarrow> document \<Rightarrow> (batch \<times> ref \<times> string) list" where
  "new_deltas doc doc' = drop (length (deltas doc)) (deltas doc')"

subsection \<open>A concrete document\<close>

text \<open>
  A schema that permits every block type directly in the root and nowhere deeper, and a
  document whose selection covers four blocks: a \<open>heading1\<close>, a \<open>heading2\<close>, a paragraph
  in the root, and a paragraph nested one level down, where no heading is permitted.
\<close>

definition root_schema :: "string \<Rightarrow> position \<Rightarrow> bool" where
  "root_schema n inside \<longleftrightarrow> length inside = 1"

definition example_elements :: "ref \<Rightarrow> model_element" where
  "example_elements =
     (\<lambda>r. \<lparr>name = ''paragraph'', path = [r]\<rparr>)
       (0 := \<lparr>name = ''heading1'', path = [0]\<rparr>,
        1 := \<lparr>name = ''heading2'', path = [1]\<rparr>,
        3 := \<lparr>name = ''paragraph'', path = [3, 0]\<rparr>)"

definition example_doc :: document where
  "example_doc =
     \<lparr>elements = example_elements, selectedBlocks = [0, 1, 2, 3], schema = root_schema,
      batches = 0, deltas = []\<rparr>"

text \<open>Two commands as they stand after a change of that document.\<close>

definition heading1_command :: heading_command where
  "heading1_command = changesDone (HeadingCommand ''heading1'') example_doc"

definition heading3_command :: heading_command where
  "heading3_command = changesDone (HeadingCommand ''heading3'') example_doc"

text \<open>The same document with only the \<open>heading1\<close> block, or only the root paragraph, selected.\<close>

definition heading_only_doc :: document where
  "heading_only_doc = example_doc\<lparr>selectedBlocks := [0]\<rparr>"

definition paragraph_only_doc :: document where
  "paragraph_only_doc = example_doc\<lparr>selectedBlocks := [2]\<rparr>"

section \<open>The demonstration harness (Console)\<close>

text \<open>
  The page element a console writes to: its class list and its text. The class \<open>updated\<close> is
  the visual flag.
\<close>

record dom_element =
  classList :: "string list"
  textContent :: string

text \<open>
  Modelled from the spec: \<open>classList.add\<close> and \<open>classList.remove\<close> are the browser's, not
  under src/; they add a class name once and remove it.
\<close>

definition classList_add :: "string \<Rightarrow> dom_element \<Rightarrow> dom_element" where
  "classList_add c el = el\<lparr>classList := List.insert c (classList el)\<rparr>"

definition classList_remove :: "string \<Rightarrow> dom_element \<Rightarrow> dom_element" where
  "classList_remove c el = el\<lparr>classList := removeAll c (classList el)\<rparr>"

text \<open>The class \<open>Console\<close>: its fields and its constructor.\<close>

record console =
  element :: dom_element
  consoleUpdates :: int
  previousData :: string

definition Console :: "dom_element \<Rightarrow> console" where
  "Console el = \<lparr>element = el, consoleUpdates = 0, previousData = []\<rparr>"

text \<open>
  Modelled from the spec: the timer service is the browser's, not under src/. The spec has a
  timer clear the flag after a fixed delay, so the page keeps a clock in milliseconds and the
  instants at which the pending timeouts are due, in the order they were set;
  \<open>setTimeout\<close> adds one, due after its delay. Every timeout of a console runs the same
  callback, so the due instant is all that is kept of it.
\<close>

record window =
  console :: console
  now :: nat
  timeouts :: "nat list"

definition setTimeout :: "nat \<Rightarrow> window \<Rightarrow> window" where
  "setTimeout delay w = w\<lparr>timeouts := timeouts w @ [now w + delay]\<rparr>"

text \<open>The arrow function \<open>update\<close> hands to \<open>setTimeout\<close>.\<close>

definition timeout_callback :: "console \<Rightarrow> console" where
  "timeout_callback c =
     (let c1 = c\<lparr>consoleUpdates := consoleUpdates c - 1\<rparr>
      in if consoleUpdates c1 = 0
         then c1\<lparr>element := classList_remove ''updated'' (element c1)\<rparr>
         else c1)"

text \<open>
  \<open>Console.update\<close>, statement by statement: the early return on unchanged data, then the
  new \<open>previousData\<close>, the counter, the flag, the text in quotes, and the timeout of 500 ms.
\<close>

definition update :: "string \<Rightarrow> window \<Rightarrow> window" where
  "update data w =
     (if previousData (console w) = data then w
      else
        let c1 = (console w)\<lparr>previousData := data\<rparr>;
            c2 = c1\<lparr>consoleUpdates := consoleUpdates c1 + 1\<rparr>;
            c3 = c2\<lparr>element := classList_add ''updated'' (element c2)\<rparr>;
            c4 = c3\<lparr>element := (element c3)\<lparr>textContent := [CHR 0x27] @ data @ [CHR 0x27]\<rparr>\<rparr>
        in setTimeout 500 (w\<lparr>console := c4\<rparr>))"

text \<open>
  Modelled from the spec: the passing of time. \<open>wait ms\<close> moves the clock on by \<open>ms\<close> and
  runs, in order, the callbacks of the timeouts that have come due. A run of the page is a
  list of events, each a call of \<open>update\<close> or a wait, from the page as it is opened.
\<close>

fun run_timeouts :: "nat \<Rightarrow> nat list \<Rightarrow> console \<Rightarrow> nat list \<times> console" where
  "run_timeouts t [] c = ([], c)"
| "run_timeouts t (due # dues) c =
     (if due \<le> t then run_timeouts t dues (timeout_callback c) else (due # dues, c))"

definition wait :: "nat \<Rightarrow> window \<Rightarrow> window" where
  "wait ms w =
     (let r = run_timeouts (now w + ms) (timeouts w) (console w)
      in \<lparr>console = snd r, now = now w + ms, timeouts = fst r\<rparr>)"

datatype event = Update string | Wait nat

fun run :: "event list \<Rightarrow> window \<Rightarrow> window" where
  "run [] w = w"
| "run (Update data # es) w = run es (update data w)"
| "run (Wait ms # es) w = run es (wait ms w)"

definition open_page :: "dom_element \<Rightarrow> window" where
  "open_page el = \<lparr>console = Console el, now = 0, timeouts = []\<rparr>"

text \<open>The flag, and the invariant of the counter: it counts the timeouts still pending, none
  of which is due later than 500 ms from now.\<close>

definition flagged :: "console \<Rightarrow> bool" where
  "flagged c \<longleftrightarrow> ''updated'' \<in> set (classList (element c))"

definition counts_pending :: "window \<Rightarrow> bool" where
  "counts_pending w \<longleftrightarrow>
     consoleUpdates (console w) = int (length (timeouts w)) \<and>
     list_all (\<lambda>due. due \<le> now w + 500) (timeouts w)"

text \<open>A concrete console element.\<close>

definition title_console :: dom_element where
  "title_console = \<lparr>classList = [''title-console__title''], textContent = []\<rparr>"

section \<open>Proofs: the heading command\<close>

subsection \<open>What the host primitives and the loop do to a document\<close>

lemma batch_rename_elements:
  "elements (batch_rename b block n doc) x =
     (if x = block then (elements doc x)\<lparr>name := n\<rparr> else elements doc x)"
  by (simp add: batch_rename_def)

lemma batch_rename_frame:
  "selectedBlocks (batch_rename b block n doc) = selectedBlocks doc"
  "schema (batch_rename b block n doc) = schema doc"
  "batches (batch_rename b block n doc) = batches doc"
  "deltas (batch_rename b block n doc) = deltas doc @ [(b, block, n)]"
  by (simp_all add: batch_rename_def)

lemma paragraph_rename_elements:
  "elements (paragraph_rename b sel doc) x =
     (if x \<in> set sel then (elements doc x)\<lparr>name := ''paragraph''\<rparr> else elements doc x)"
proof (induction sel arbitrary: doc)
  case Nil
  show ?case by simp
next
  case (Cons block blocks)
  show ?case
  proof (cases "element_is (elements doc block) ''paragraph''")
    case True
    then have "(elements doc block)\<lparr>name := ''paragraph''\<rparr> = elements doc block"
      by (simp add: element_is_def)
    with True show ?thesis by (auto simp: Cons.IH)
  next
    case False
    then show ?thesis by (simp add: Cons.IH batch_rename_elements)
  qed
qed

lemma paragraph_rename_frame:
  "selectedBlocks (paragraph_rename b sel doc) = selectedBlocks doc \<and>
   schema (paragraph_rename b sel doc) = schema doc \<and>
   batches (paragraph_rename b sel doc) = batches doc"
  by (induction sel arbitrary: doc) (simp_all add: batch_rename_frame)

lemma paragraph_rename_deltas:
  "\<exists>new. deltas (paragraph_rename b sel doc) = deltas doc @ new \<and>
     (\<forall>d\<in>set new. fst d = b \<and> fst (snd d) \<in> set sel \<and> snd (snd d) = ''paragraph'')"
proof (induction sel arbitrary: doc)
  case Nil
  show ?case by simp
next
  case (Cons block blocks)
  show ?case
  proof (cases "element_is (elements doc block) ''paragraph''")
    case True
    from Cons.IH [of doc] obtain new where
      "deltas (paragraph_rename b blocks doc) = deltas doc @ new"
      and "\<forall>d\<in>set new. fst d = b \<and> fst (snd d) \<in> set blocks \<and> snd (snd d) = ''paragraph''"
      by blast
    then have
      "deltas (paragraph_rename b (block # blocks) doc) = deltas doc @ new \<and>
       (\<forall>d\<in>set new. fst d = b \<and> fst (snd d) \<in> set (block # blocks) \<and>
          snd (snd d) = ''paragraph'')"
      using True by simp
    then show ?thesis by blast
  next
    case False
    from Cons.IH [of "batch_rename b block ''paragraph'' doc"]
    obtain new where
      "deltas (paragraph_rename b blocks (batch_rename b block ''paragraph'' doc)) =
         deltas (batch_rename b block ''paragraph'' doc) @ new"
      and "\<forall>d\<in>set new. fst d = b \<and> fst (snd d) \<in> set blocks \<and> snd (snd d) = ''paragraph''"
      by blast
    then have
      "deltas (paragraph_rename b (block # blocks) doc) =
         deltas doc @ ((b, block, ''paragraph'') # new) \<and>
       (\<forall>d\<in>set ((b, block, ''paragraph'') # new).
          fst d = b \<and> fst (snd d) \<in> set (block # blocks) \<and> snd (snd d) = ''paragraph'')"
      using False by (simp add: batch_rename_frame)
    then show ?thesis by blast
  qed
qed

lemma loop_elements:
  "elements (doExecute_loop cmd sr b blocks doc) x =
     (if x \<in> set blocks \<and> (element_is (elements doc x) (modelElement cmd) = sr)
      then (elements doc x)\<lparr>name := (if sr then ''paragraph'' else modelElement cmd)\<rparr>
      else elements doc x)"
proof (induction blocks arbitrary: doc)
  case Nil
  show ?case by simp
next
  case (Cons block blocks)
  show ?case
    by (simp add: Cons.IH execute_paragraph_def createIn_def paragraph_rename_elements
        batch_rename_elements element_is_def)
qed

lemma loop_frame:
  "selectedBlocks (doExecute_loop cmd sr b blocks doc) = selectedBlocks doc \<and>
   schema (doExecute_loop cmd sr b blocks doc) = schema doc \<and>
   batches (doExecute_loop cmd sr b blocks doc) = batches doc"
  by (induction blocks arbitrary: doc)
    (simp_all add: execute_paragraph_def createIn_def paragraph_rename_frame batch_rename_frame)

lemma loop_step_deltas:
  "\<exists>new. deltas (doExecute_loop cmd sr b [block] doc) = deltas doc @ new \<and>
     (\<forall>d\<in>set new. fst d = b \<and> fst (snd d) = block \<and>
        element_is (elements doc block) (modelElement cmd) = sr \<and>
        snd (snd d) = (if sr then ''paragraph'' else modelElement cmd))"
proof (cases sr)
  case True
  show ?thesis
  proof (cases "element_is (elements doc block) (modelElement cmd)")
    case is_target: True
    from paragraph_rename_deltas [of b "[block]" doc] obtain new where
      "deltas (paragraph_rename b [block] doc) = deltas doc @ new"
      and "\<forall>d\<in>set new. fst d = b \<and> fst (snd d) \<in> set [block] \<and> snd (snd d) = ''paragraph''"
      by blast
    then have
      "deltas (doExecute_loop cmd sr b [block] doc) = deltas doc @ new \<and>
       (\<forall>d\<in>set new. fst d = b \<and> fst (snd d) = block \<and>
          element_is (elements doc block) (modelElement cmd) = sr \<and>
          snd (snd d) = (if sr then ''paragraph'' else modelElement cmd))"
      using True is_target by (simp add: execute_paragraph_def createIn_def)
    then show ?thesis by blast
  next
    case False
    with True show ?thesis by simp
  qed
next
  case False
  then show ?thesis by (simp add: batch_rename_frame)
qed

lemma loop_Cons:
  "doExecute_loop cmd sr b (block # blocks) doc =
     doExecute_loop cmd sr b blocks (doExecute_loop cmd sr b [block] doc)"
  by simp

lemma loop_step_is:
  assumes "element_is (elements (doExecute_loop cmd sr b [block] doc) y) (modelElement cmd) = sr"
  shows "element_is (elements doc y) (modelElement cmd) = sr"
  using assms unfolding loop_elements by (auto split: if_splits)

lemma loop_deltas:
  "\<exists>new. deltas (doExecute_loop cmd sr b blocks doc) = deltas doc @ new \<and>
     (\<forall>d\<in>set new. fst d = b \<and> fst (snd d) \<in> set blocks \<and>
        element_is (elements doc (fst (snd d))) (modelElement cmd) = sr \<and>
        snd (snd d) = (if sr then ''paragraph'' else modelElement cmd))"
proof (induction blocks arbitrary: doc)
  case Nil
  show ?case by simp
next
  case (Cons block blocks)
  define doc' where "doc' = doExecute_loop cmd sr b [block] doc"
  from loop_step_deltas [of cmd sr b block doc] obtain n1 where
    n1: "deltas doc' = deltas doc @ n1"
    and p1: "\<forall>d\<in>set n1. fst d = b \<and> fst (snd d) = block \<and>
        element_is (elements doc block) (modelElement cmd) = sr \<and>
        snd (snd d) = (if sr then ''paragraph'' else modelElement cmd)"
    unfolding doc'_def by blast
  from Cons.IH [of doc'] obtain n2 where
    n2: "deltas (doExecute_loop cmd sr b blocks doc') = deltas doc' @ n2"
    and p2: "\<forall>d\<in>set n2. fst d = b \<and> fst (snd d) \<in> set blocks \<and>
        element_is (elements doc' (fst (snd d))) (modelElement cmd) = sr \<and>
        snd (snd d) = (if sr then ''paragraph'' else modelElement cmd)"
    by blast
  have p2': "\<forall>d\<in>set n2. element_is (elements doc (fst (snd d))) (modelElement cmd) = sr"
    using p2 loop_step_is [of cmd sr b block doc] unfolding doc'_def by blast
  have "deltas (doExecute_loop cmd sr b (block # blocks) doc) = deltas doc @ (n1 @ n2)"
    using n1 n2 unfolding doc'_def loop_Cons [of cmd sr b block blocks doc] by simp
  moreover have "\<forall>d\<in>set (n1 @ n2). fst d = b \<and> fst (snd d) \<in> set (block # blocks) \<and>
        element_is (elements doc (fst (snd d))) (modelElement cmd) = sr \<and>
        snd (snd d) = (if sr then ''paragraph'' else modelElement cmd)"
    using p1 p2 p2' by auto
  ultimately show ?case by blast
qed

lemma chosen_batch_snd:
  "elements (snd (chosen_batch opts doc)) = elements doc \<and>
   selectedBlocks (snd (chosen_batch opts doc)) = selectedBlocks doc \<and>
   schema (snd (chosen_batch opts doc)) = schema doc \<and>
   deltas (snd (chosen_batch opts doc)) = deltas doc \<and>
   batches (snd (chosen_batch opts doc)) =
     (case batch opts of Some b \<Rightarrow> batches doc | None \<Rightarrow> Suc (batches doc))"
  by (simp add: chosen_batch_def document_batch_def split: option.splits)

lemma doExecute_unfold:
  "doExecute opts cmd doc =
     doExecute_loop cmd (value cmd) (fst (chosen_batch opts doc))
       (eligible_blocks cmd (snd (chosen_batch opts doc))) (snd (chosen_batch opts doc))"
  by (simp add: doExecute_def Let_def split: prod.splits)

lemma eligible_blocks_chosen:
  "eligible_blocks cmd (snd (chosen_batch opts doc)) = eligible_blocks cmd doc"
  by (simp add: eligible_blocks_def chosen_batch_snd)

lemma set_eligible_blocks:
  "x \<in> set (eligible_blocks cmd doc) \<longleftrightarrow>
     x \<in> set (selectedBlocks doc) \<and>
     checkCanBecomeHeading (elements doc x) (modelElement cmd) (schema doc)"
  by (simp add: eligible_blocks_def)

lemma doExecute_elements:
  "elements (doExecute opts cmd doc) x =
     (if x \<in> set (selectedBlocks doc) \<and>
         checkCanBecomeHeading (elements doc x) (modelElement cmd) (schema doc) \<and>
         element_is (elements doc x) (modelElement cmd) = value cmd
      then (elements doc x)\<lparr>name := (if value cmd then ''paragraph'' else modelElement cmd)\<rparr>
      else elements doc x)"
  by (simp add: doExecute_unfold loop_elements eligible_blocks_chosen set_eligible_blocks
      chosen_batch_snd)

lemma doExecute_frame:
  "selectedBlocks (doExecute opts cmd doc) = selectedBlocks doc \<and>
   schema (doExecute opts cmd doc) = schema doc \<and>
   batches (doExecute opts cmd doc) =
     (case batch opts of Some b \<Rightarrow> batches doc | None \<Rightarrow> Suc (batches doc))"
  by (simp add: doExecute_unfold loop_frame chosen_batch_snd)

lemma doExecute_deltas:
  "\<exists>new. deltas (doExecute opts cmd doc) = deltas doc @ new \<and>
     (\<forall>d\<in>set new. fst d = fst (chosen_batch opts doc) \<and>
        fst (snd d) \<in> set (selectedBlocks doc) \<and>
        checkCanBecomeHeading (elements doc (fst (snd d))) (modelElement cmd) (schema doc) \<and>
        element_is (elements doc (fst (snd d))) (modelElement cmd) = value cmd \<and>
        snd (snd d) = (if value cmd then ''paragraph'' else modelElement cmd))"
  using loop_deltas [of cmd "value cmd" "fst (chosen_batch opts doc)"
      "eligible_blocks cmd (snd (chosen_batch opts doc))" "snd (chosen_batch opts doc)"]
  by (simp add: doExecute_unfold eligible_blocks_chosen set_eligible_blocks chosen_batch_snd)

lemma execute_paragraph_elements:
  "elements (execute_paragraph (createIn x) b d) y =
     (if y = x then (elements d y)\<lparr>name := ''paragraph''\<rparr> else elements d y)"
  unfolding execute_paragraph_def createIn_def paragraph_rename_elements by simp

lemma execute_paragraph_noop:
  "name (elements d x) = ''paragraph'' \<Longrightarrow> execute_paragraph (createIn x) b d = d"
  by (simp add: execute_paragraph_def createIn_def element_is_def)

lemma revert_each_skip:
  "name (elements d x) = ''paragraph'' \<Longrightarrow>
     revert_each_in_own_range b (filter P xs) d =
     revert_each_in_own_range b (filter (\<lambda>y. P y \<and> y \<noteq> x) xs) d"
proof (induction xs arbitrary: d)
  case Nil
  show ?case by simp
next
  case (Cons y ys)
  show ?case
  proof (cases "y = x")
    case True
    with Cons show ?thesis by (simp add: execute_paragraph_noop)
  next
    case False
    then have "name (elements (execute_paragraph (createIn y) b d) x) = ''paragraph''"
      using Cons.prems by (simp add: execute_paragraph_elements)
    with Cons.IH False Cons.prems show ?thesis by simp
  qed
qed

lemma loop_remove_is_revert_each:
  "doExecute_loop cmd True b blocks doc =
     revert_each_in_own_range b
       (filter (\<lambda>y. element_is (elements doc y) (modelElement cmd)) blocks) doc"
proof (induction blocks arbitrary: doc)
  case Nil
  show ?case by simp
next
  case (Cons x xs)
  show ?case
  proof (cases "element_is (elements doc x) (modelElement cmd)")
    case False
    then show ?thesis by (simp add: Cons.IH)
  next
    case True
    define doc' where "doc' = execute_paragraph (createIn x) b doc"
    have lhs: "doExecute_loop cmd True b (x # xs) doc =
        revert_each_in_own_range b
          (filter (\<lambda>y. element_is (elements doc' y) (modelElement cmd)) xs) doc'"
      using True by (simp add: Cons.IH doc'_def)
    have rhs: "revert_each_in_own_range b
          (filter (\<lambda>y. element_is (elements doc y) (modelElement cmd)) (x # xs)) doc =
        revert_each_in_own_range b
          (filter (\<lambda>y. element_is (elements doc y) (modelElement cmd)) xs) doc'"
      using True by (simp add: doc'_def)
    show ?thesis
    proof (cases "modelElement cmd = ''paragraph''")
      case is_par: True
      with \<open>element_is (elements doc x) (modelElement cmd)\<close>
      have "doc' = doc" by (simp add: doc'_def execute_paragraph_noop element_is_def)
      with lhs rhs show ?thesis by simp
    next
      case not_par: False
      have par: "name (elements doc' x) = ''paragraph''"
        by (simp add: doc'_def execute_paragraph_elements)
      have "filter (\<lambda>y. element_is (elements doc' y) (modelElement cmd)) xs =
          filter (\<lambda>y. element_is (elements doc y) (modelElement cmd) \<and> y \<noteq> x) xs"
        using not_par by (intro filter_cong refl)
          (auto simp: doc'_def execute_paragraph_elements element_is_def)
      with lhs rhs revert_each_skip [OF par] show ?thesis by simp
    qed
  qed
qed

lemma set_target_blocks:
  "x \<in> set (target_blocks cmd doc) \<longleftrightarrow>
     x \<in> set (selectedBlocks doc) \<and>
     checkCanBecomeHeading (elements doc x) (modelElement cmd) (schema doc) \<and>
     element_is (elements doc x) (modelElement cmd)"
  by (simp add: target_blocks_def set_eligible_blocks)

lemmas example_defs =
  heading1_command_def heading3_command_def changesDone_def refreshState_def refreshValue_def
  HeadingCommand_def first_def example_doc_def example_elements_def element_is_def
  checkCanBecomeHeading_def createBefore_def root_schema_def checkEnabled_def
  target_blocks_def eligible_blocks_def

lemma new_deltas_append: "deltas doc' = deltas doc @ new \<Longrightarrow> new_deltas doc doc' = new"
  by (simp add: new_deltas_def)

lemma doExecute_new_deltas:
  "deltas (doExecute opts cmd doc) = deltas doc @ new_deltas doc (doExecute opts cmd doc) \<and>
   (\<forall>d\<in>set (new_deltas doc (doExecute opts cmd doc)).
      fst d = fst (chosen_batch opts doc) \<and>
      fst (snd d) \<in> set (selectedBlocks doc) \<and>
      checkCanBecomeHeading (elements doc (fst (snd d))) (modelElement cmd) (schema doc) \<and>
      element_is (elements doc (fst (snd d))) (modelElement cmd) = value cmd \<and>
      snd (snd d) = (if value cmd then ''paragraph'' else modelElement cmd))"
proof -
  from doExecute_deltas [of opts cmd doc] obtain new where
    n: "deltas (doExecute opts cmd doc) = deltas doc @ new"
    and p: "\<forall>d\<in>set new. fst d = fst (chosen_batch opts doc) \<and>
        fst (snd d) \<in> set (selectedBlocks doc) \<and>
        checkCanBecomeHeading (elements doc (fst (snd d))) (modelElement cmd) (schema doc) \<and>
        element_is (elements doc (fst (snd d))) (modelElement cmd) = value cmd \<and>
        snd (snd d) = (if value cmd then ''paragraph'' else modelElement cmd)"
    by blast
  from n have "new_deltas doc (doExecute opts cmd doc) = new" by (rule new_deltas_append)
  with n p show ?thesis by simp
qed

lemma doExecute_remove_eq:
  "value cmd \<Longrightarrow>
   doExecute opts cmd doc =
     revert_each_in_own_range (fst (chosen_batch opts doc)) (target_blocks cmd doc)
       (snd (chosen_batch opts doc))"
  by (simp add: doExecute_unfold loop_remove_is_revert_each target_blocks_def
      eligible_blocks_chosen chosen_batch_snd)

subsection \<open>The listener and one execution\<close>

lemma changesDone_fields:
  "modelElement (changesDone cmd doc) = modelElement cmd \<and>
   value (changesDone cmd doc) =
     (case selectedBlocks doc of [] \<Rightarrow> False
      | block # rest \<Rightarrow> element_is (elements doc block) (modelElement cmd))"
  by (simp add: changesDone_def refreshState_def refreshValue_def first_def
      split: list.splits)

lemma execute_unfold:
  "snd (execute opts (cmd, doc)) = doExecute opts cmd doc \<and>
   fst (execute opts (cmd, doc)) = changesDone cmd (doExecute opts cmd doc)"
  by (simp add: execute_def Let_def)

subsection \<open>Two executions on the concrete document\<close>

lemma example_runs:
  "deltas (doExecute \<lparr>batch = Some 7\<rparr> heading3_command example_doc) =
     [(7, 0, ''heading3''), (7, 1, ''heading3''), (7, 2, ''heading3'')]"
  "deltas (doExecute \<lparr>batch = None\<rparr> heading1_command example_doc) = [(0, 0, ''paragraph'')]"
  by (simp_all add: doExecute_def chosen_batch_def document_batch_def execute_paragraph_def
      createIn_def batch_rename_def example_defs)

section \<open>Properties of the heading command\<close>

subsection \<open>The value flag\<close>

text \<open>
  C2. The listener on the document's changes recomputes the value flag, and it runs after the
  changes of every execution. The recomputed flag is true exactly when the selection has a
  first block and that block has the command's element name; neither the old flag nor the
  blocks after the first have any part in it.
\<close>

theorem value_follows_first_block:
  "(value (changesDone cmd doc) \<longleftrightarrow>
      (\<exists>block rest. selectedBlocks doc = block # rest \<and>
         name (elements doc block) = modelElement cmd)) \<and>
   (value (fst (execute opts (cmd, doc))) \<longleftrightarrow>
      (\<exists>block rest. selectedBlocks (snd (execute opts (cmd, doc))) = block # rest \<and>
         name (elements (snd (execute opts (cmd, doc))) block) = modelElement cmd)) \<and>
   value (changesDone cmd (doc\<lparr>selectedBlocks := block # rest\<rparr>)) =
     value (changesDone cmd (doc\<lparr>selectedBlocks := [block]\<rparr>))"
proof -
  have a: "\<And>d. value (changesDone cmd d) \<longleftrightarrow>
      (\<exists>block rest. selectedBlocks d = block # rest \<and>
         name (elements d block) = modelElement cmd)"
    by (simp add: changesDone_fields element_is_def split: list.splits)
  have "value (changesDone cmd (doc\<lparr>selectedBlocks := block # rest\<rparr>)) =
     value (changesDone cmd (doc\<lparr>selectedBlocks := [block]\<rparr>))"
    by (simp add: changesDone_fields)
  with a [of doc] a [of "doExecute opts cmd doc"] show ?thesis
    by (simp add: execute_unfold)
qed

text \<open>
  At the concrete document, whose first selected block is a \<open>heading1\<close>: the flag is true
  for the \<open>heading1\<close> command, false for \<open>heading2\<close> although block 1 is a \<open>heading2\<close>,
  false on an empty selection, and false again once an execution has reverted block 0.
\<close>

theorem value_follows_first_block_witness:
  "value (changesDone (HeadingCommand ''heading1'') example_doc) \<and>
   \<not> value (changesDone (HeadingCommand ''heading2'') example_doc) \<and>
   \<not> value (changesDone (HeadingCommand ''heading1'') (example_doc\<lparr>selectedBlocks := []\<rparr>)) \<and>
   \<not> value (fst (execute \<lparr>batch = None\<rparr> (heading1_command, example_doc)))"
proof -
  have s: "selectedBlocks example_doc = [0, 1, 2, 3]"
    "selectedBlocks (example_doc\<lparr>selectedBlocks := []\<rparr>) = []"
    "name (elements example_doc 0) = ''heading1''"
    "modelElement (HeadingCommand ''heading1'') = ''heading1''"
    "modelElement (HeadingCommand ''heading2'') = ''heading2''"
    by (simp_all add: example_defs)
  have e: "selectedBlocks (snd (execute \<lparr>batch = None\<rparr> (heading1_command, example_doc))) =
      [0, 1, 2, 3]"
    "name (elements (snd (execute \<lparr>batch = None\<rparr> (heading1_command, example_doc))) 0) =
      ''paragraph''"
    "modelElement heading1_command = ''heading1''"
    by (simp_all add: execute_unfold doExecute_frame doExecute_elements example_defs)
  from value_follows_first_block [of "HeadingCommand ''heading1''" example_doc, THEN conjunct1]
    value_follows_first_block [of "HeadingCommand ''heading2''" example_doc, THEN conjunct1]
    value_follows_first_block [of "HeadingCommand ''heading1''"
      "example_doc\<lparr>selectedBlocks := []\<rparr>", THEN conjunct1]
    value_follows_first_block [of heading1_command example_doc "\<lparr>batch = None\<rparr>",
      THEN conjunct2, THEN conjunct1]
  show ?thesis using s e by simp
qed

subsection \<open>Enablement\<close>

text \<open>
  C3. The enablement predicate is false exactly when no block is selected or the schema does
  not permit the command's element at the position before the first selected block; in
  particular it is false when the selection is one block that fails the schema check.
\<close>

theorem checkEnabled_disabled_iff:
  "(\<not> checkEnabled cmd doc \<longleftrightarrow>
      selectedBlocks doc = [] \<or>
      (\<exists>block rest. selectedBlocks doc = block # rest \<and>
         \<not> schema doc (modelElement cmd) (createBefore (elements doc block)))) \<and>
   (selectedBlocks doc = [block] \<and>
      \<not> checkCanBecomeHeading (elements doc block) (modelElement cmd) (schema doc) \<longrightarrow>
    \<not> checkEnabled cmd doc)"
  by (simp add: checkEnabled_def first_def checkCanBecomeHeading_def split: list.splits)

text \<open>
  At the concrete document: disabled when only the nested paragraph is selected, disabled on
  an empty selection, enabled when only the root paragraph is selected.
\<close>

theorem checkEnabled_disabled_iff_witness:
  "\<not> checkEnabled heading1_command (example_doc\<lparr>selectedBlocks := [3]\<rparr>) \<and>
   \<not> checkEnabled heading1_command (example_doc\<lparr>selectedBlocks := []\<rparr>) \<and>
   checkEnabled heading1_command (example_doc\<lparr>selectedBlocks := [2]\<rparr>)"
proof -
  have s: "selectedBlocks (example_doc\<lparr>selectedBlocks := [3]\<rparr>) = [3]"
    "selectedBlocks (example_doc\<lparr>selectedBlocks := []\<rparr>) = []"
    "selectedBlocks (example_doc\<lparr>selectedBlocks := [2]\<rparr>) = [2]"
    "\<not> checkCanBecomeHeading (elements (example_doc\<lparr>selectedBlocks := [3]\<rparr>) 3)
        (modelElement heading1_command) (schema (example_doc\<lparr>selectedBlocks := [3]\<rparr>))"
    "schema (example_doc\<lparr>selectedBlocks := [2]\<rparr>) (modelElement heading1_command)
        (createBefore (elements (example_doc\<lparr>selectedBlocks := [2]\<rparr>) 2))"
    by (simp_all add: example_defs)
  from checkEnabled_disabled_iff [of heading1_command "example_doc\<lparr>selectedBlocks := [3]\<rparr>" 3,
      THEN conjunct2]
    checkEnabled_disabled_iff [of heading1_command "example_doc\<lparr>selectedBlocks := []\<rparr>",
      THEN conjunct1]
    checkEnabled_disabled_iff [of heading1_command "example_doc\<lparr>selectedBlocks := [2]\<rparr>",
      THEN conjunct1]
  show ?thesis using s by simp
qed

text \<open>
  C10. The enablement predicate is determined by the first selected block alone: it is true
  exactly when that block passes the schema check, and it stays the same when the later
  selected blocks, or any element other than the first block, are replaced by anything else.
  So when the first selected block passes the check the command is enabled, whatever the
  later blocks are; a later block that fails the check is only passed over when the command
  executes, and is left as it was.
\<close>

theorem checkEnabled_first_block_only:
  assumes "selectedBlocks doc = block # rest"
  shows "(checkEnabled cmd doc \<longleftrightarrow>
       checkCanBecomeHeading (elements doc block) (modelElement cmd) (schema doc)) \<and>
    (\<forall>rest' els. els block = elements doc block \<longrightarrow>
       checkEnabled cmd (doc\<lparr>selectedBlocks := block # rest', elements := els\<rparr>) =
         checkEnabled cmd doc) \<and>
    (checkCanBecomeHeading (elements doc block) (modelElement cmd) (schema doc) \<longrightarrow>
       checkEnabled cmd doc) \<and>
    (\<forall>later\<in>set rest.
       \<not> checkCanBecomeHeading (elements doc later) (modelElement cmd) (schema doc) \<longrightarrow>
       elements (doExecute opts cmd doc) later = elements doc later)"
proof -
  have first_only: "checkEnabled cmd doc \<longleftrightarrow>
       checkCanBecomeHeading (elements doc block) (modelElement cmd) (schema doc)"
    using assms by (simp add: checkEnabled_def first_def)
  have "\<forall>rest' els. els block = elements doc block \<longrightarrow>
       checkEnabled cmd (doc\<lparr>selectedBlocks := block # rest', elements := els\<rparr>) =
         checkEnabled cmd doc"
    using assms by (simp add: checkEnabled_def first_def)
  moreover have "\<forall>later\<in>set rest.
       \<not> checkCanBecomeHeading (elements doc later) (modelElement cmd) (schema doc) \<longrightarrow>
       elements (doExecute opts cmd doc) later = elements doc later"
    by (simp add: doExecute_elements)
  ultimately show ?thesis using first_only by blast
qed

text \<open>
  At the concrete document the nested paragraph, block 3, is selected and not permitted; the
  \<open>heading3\<close> command is enabled all the same, it stays enabled when the later blocks are
  replaced by block 3 alone, and its execution leaves block 3 as it was. With the selection
  turned round to the nested paragraph first and the root paragraph second, the command is
  disabled although the second block is permitted.
\<close>

theorem checkEnabled_first_block_only_witness:
  "selectedBlocks example_doc = [0, 1, 2, 3] \<and>
   \<not> checkCanBecomeHeading (elements example_doc 3) (modelElement heading3_command)
       (schema example_doc) \<and>
   checkEnabled heading3_command example_doc \<and>
   checkEnabled heading3_command (example_doc\<lparr>selectedBlocks := [0, 3]\<rparr>) \<and>
   elements (doExecute \<lparr>batch = None\<rparr> heading3_command example_doc) 3 =
     elements example_doc 3 \<and>
   checkCanBecomeHeading (elements (example_doc\<lparr>selectedBlocks := [3, 2]\<rparr>) 2)
       (modelElement heading3_command) (schema (example_doc\<lparr>selectedBlocks := [3, 2]\<rparr>)) \<and>
   \<not> checkEnabled heading3_command (example_doc\<lparr>selectedBlocks := [3, 2]\<rparr>)"
proof -
  have a: "selectedBlocks example_doc = 0 # [1, 2, 3]" by (simp add: example_defs)
  have a': "selectedBlocks (example_doc\<lparr>selectedBlocks := [3, 2]\<rparr>) = 3 # [2]" by simp
  have b: "checkCanBecomeHeading (elements example_doc 0) (modelElement heading3_command)
       (schema example_doc)"
    by (simp add: example_defs)
  have c: "\<not> checkCanBecomeHeading (elements example_doc 3) (modelElement heading3_command)
       (schema example_doc)"
    by (simp add: example_defs)
  have d: "checkCanBecomeHeading (elements (example_doc\<lparr>selectedBlocks := [3, 2]\<rparr>) 2)
       (modelElement heading3_command) (schema (example_doc\<lparr>selectedBlocks := [3, 2]\<rparr>))"
    "\<not> checkCanBecomeHeading (elements (example_doc\<lparr>selectedBlocks := [3, 2]\<rparr>) 3)
       (modelElement heading3_command) (schema (example_doc\<lparr>selectedBlocks := [3, 2]\<rparr>))"
    by (simp_all add: example_defs)
  have e: "example_doc\<lparr>selectedBlocks := [0, 3], elements := elements example_doc\<rparr> =
      example_doc\<lparr>selectedBlocks := [0, 3]\<rparr>"
    by simp
  note th = checkEnabled_first_block_only [OF a, of heading3_command "\<lparr>batch = None\<rparr>"]
  note th' = checkEnabled_first_block_only [OF a', of heading3_command "\<lparr>batch = None\<rparr>"]
  have en: "checkEnabled heading3_command example_doc"
    using th [THEN conjunct1] b by simp
  have "checkEnabled heading3_command
      (example_doc\<lparr>selectedBlocks := 0 # [3], elements := elements example_doc\<rparr>) =
      checkEnabled heading3_command example_doc"
    using th [THEN conjunct2, THEN conjunct1] by blast
  then have ind: "checkEnabled heading3_command (example_doc\<lparr>selectedBlocks := [0, 3]\<rparr>)"
    using en e by simp
  have fr: "elements (doExecute \<lparr>batch = None\<rparr> heading3_command example_doc) 3 =
     elements example_doc 3"
    using th [THEN conjunct2, THEN conjunct2, THEN conjunct2] c by simp
  have dis: "\<not> checkEnabled heading3_command (example_doc\<lparr>selectedBlocks := [3, 2]\<rparr>)"
    using th' [THEN conjunct1] d(2) by simp
  show ?thesis using a c en ind fr d(1) dis by simp
qed

subsection \<open>Applying the heading\<close>

text \<open>
  C4. When the command's value flag is false, every eligible selected block that does not
  have the command's element name gets it (and keeps its place), and every eligible block
  that already has it is left unchanged, with no rename recorded for it.
\<close>

theorem doExecute_apply:
  assumes "\<not> value cmd"
  shows "(\<forall>block\<in>set (eligible_blocks cmd doc).
            \<not> element_is (elements doc block) (modelElement cmd) \<longrightarrow>
            elements (doExecute opts cmd doc) block =
              (elements doc block)\<lparr>name := modelElement cmd\<rparr>) \<and>
         (\<forall>block\<in>set (eligible_blocks cmd doc).
            element_is (elements doc block) (modelElement cmd) \<longrightarrow>
            elements (doExecute opts cmd doc) block = elements doc block \<and>
            block \<notin> (fst \<circ> snd) ` set (new_deltas doc (doExecute opts cmd doc)))"
proof -
  have "\<forall>block\<in>set (eligible_blocks cmd doc).
            \<not> element_is (elements doc block) (modelElement cmd) \<longrightarrow>
            elements (doExecute opts cmd doc) block =
              (elements doc block)\<lparr>name := modelElement cmd\<rparr>"
    using assms by (simp add: doExecute_elements set_eligible_blocks)
  moreover have "\<forall>block\<in>set (eligible_blocks cmd doc).
            element_is (elements doc block) (modelElement cmd) \<longrightarrow>
            elements (doExecute opts cmd doc) block = elements doc block"
    using assms by (simp add: doExecute_elements set_eligible_blocks)
  moreover have "\<forall>block. element_is (elements doc block) (modelElement cmd) \<longrightarrow>
            block \<notin> (fst \<circ> snd) ` set (new_deltas doc (doExecute opts cmd doc))"
    using assms doExecute_new_deltas [of opts cmd doc] by auto
  ultimately show ?thesis by blast
qed

text \<open>
  At the concrete document: \<open>heading3\<close> is applied to the three eligible blocks, and the
  \<open>heading2\<close> command leaves block 1, already a \<open>heading2\<close>, as it was.
\<close>

theorem doExecute_apply_witness:
  "\<not> value heading3_command \<and>
   eligible_blocks heading3_command example_doc = [0, 1, 2] \<and>
   name (elements (doExecute \<lparr>batch = None\<rparr> heading3_command example_doc) 0) = ''heading3'' \<and>
   name (elements (doExecute \<lparr>batch = None\<rparr> heading3_command example_doc) 1) = ''heading3'' \<and>
   name (elements (doExecute \<lparr>batch = None\<rparr> heading3_command example_doc) 2) = ''heading3'' \<and>
   elements (doExecute \<lparr>batch = None\<rparr> (heading3_command\<lparr>modelElement := ''heading2''\<rparr>)
     example_doc) 1 = elements example_doc 1"
proof -
  have v: "\<not> value heading3_command" by (simp add: example_defs)
  have v': "\<not> value (heading3_command\<lparr>modelElement := ''heading2''\<rparr>)"
    by (simp add: example_defs)
  have e: "eligible_blocks heading3_command example_doc = [0, 1, 2]"
    by (simp add: example_defs)
  have e': "eligible_blocks (heading3_command\<lparr>modelElement := ''heading2''\<rparr>) example_doc =
      [0, 1, 2]"
    by (simp add: example_defs)
  have n: "\<not> element_is (elements example_doc 0) (modelElement heading3_command)"
    "\<not> element_is (elements example_doc 1) (modelElement heading3_command)"
    "\<not> element_is (elements example_doc 2) (modelElement heading3_command)"
    "element_is (elements example_doc 1)
       (modelElement (heading3_command\<lparr>modelElement := ''heading2''\<rparr>))"
    "modelElement heading3_command = ''heading3''"
    by (simp_all add: example_defs)
  from doExecute_apply [OF v, of example_doc "\<lparr>batch = None\<rparr>"] n
  have "name (elements (doExecute \<lparr>batch = None\<rparr> heading3_command example_doc) 0) = ''heading3''"
    "name (elements (doExecute \<lparr>batch = None\<rparr> heading3_command example_doc) 1) = ''heading3''"
    "name (elements (doExecute \<lparr>batch = None\<rparr> heading3_command example_doc) 2) = ''heading3''"
    unfolding e by simp_all
  moreover from doExecute_apply [OF v', of example_doc "\<lparr>batch = None\<rparr>"] n
  have "elements (doExecute \<lparr>batch = None\<rparr> (heading3_command\<lparr>modelElement := ''heading2''\<rparr>)
     example_doc) 1 = elements example_doc 1"
    unfolding e' by simp
  ultimately show ?thesis using v e by simp
qed

subsection \<open>Removing the heading\<close>

text \<open>
  C1, as amended. When the command's value flag is true, \<open>_doExecute\<close> is the paragraph
  command run once for each eligible selected block that has the command's element name, each
  time on a selection spanning that block's own range and in the one batch of the invocation.
  Each such block ends as a \<open>paragraph\<close>; every other block, selected or not, is left as it
  was.
\<close>

theorem doExecute_remove:
  assumes "value cmd"
  shows "doExecute opts cmd doc =
      revert_each_in_own_range (fst (chosen_batch opts doc)) (target_blocks cmd doc)
        (snd (chosen_batch opts doc)) \<and>
    (\<forall>block\<in>set (target_blocks cmd doc).
       elements (doExecute opts cmd doc) block = (elements doc block)\<lparr>name := ''paragraph''\<rparr>) \<and>
    (\<forall>block. block \<notin> set (target_blocks cmd doc) \<longrightarrow>
       elements (doExecute opts cmd doc) block = elements doc block)"
proof -
  have "doExecute opts cmd doc =
      revert_each_in_own_range (fst (chosen_batch opts doc)) (target_blocks cmd doc)
        (snd (chosen_batch opts doc))"
    using assms by (rule doExecute_remove_eq)
  moreover have "\<forall>block\<in>set (target_blocks cmd doc).
       elements (doExecute opts cmd doc) block = (elements doc block)\<lparr>name := ''paragraph''\<rparr>"
    using assms by (simp add: doExecute_elements set_target_blocks)
  moreover have "\<forall>block. block \<notin> set (target_blocks cmd doc) \<longrightarrow>
       elements (doExecute opts cmd doc) block = elements doc block"
    using assms by (simp add: doExecute_elements set_target_blocks)
  ultimately show ?thesis by blast
qed

text \<open>
  At the concrete document, with the \<open>heading1\<close> command active: block 0 alone is reverted,
  by one paragraph command on its own range in the fresh batch 0.
\<close>

theorem doExecute_remove_witness:
  "value heading1_command \<and>
   target_blocks heading1_command example_doc = [0] \<and>
   name (elements (doExecute \<lparr>batch = None\<rparr> heading1_command example_doc) 0) = ''paragraph'' \<and>
   elements (doExecute \<lparr>batch = None\<rparr> heading1_command example_doc) 1 = elements example_doc 1 \<and>
   doExecute \<lparr>batch = None\<rparr> heading1_command example_doc =
     execute_paragraph (createIn 0) 0 (example_doc\<lparr>batches := 1\<rparr>)"
proof -
  have v: "value heading1_command" by (simp add: example_defs)
  have t: "target_blocks heading1_command example_doc = [0]" by (simp add: example_defs)
  have c: "chosen_batch \<lparr>batch = None\<rparr> example_doc = (0, example_doc\<lparr>batches := 1\<rparr>)"
    by (simp add: chosen_batch_def document_batch_def example_doc_def)
  note th = doExecute_remove [OF v, of "\<lparr>batch = None\<rparr>" example_doc, unfolded t]
  from th [THEN conjunct1]
  have "doExecute \<lparr>batch = None\<rparr> heading1_command example_doc =
     execute_paragraph (createIn 0) 0 (example_doc\<lparr>batches := 1\<rparr>)"
    unfolding c by simp
  moreover from th [THEN conjunct2, THEN conjunct1]
  have "name (elements (doExecute \<lparr>batch = None\<rparr> heading1_command example_doc) 0) = ''paragraph''"
    by simp
  moreover from th [THEN conjunct2, THEN conjunct2]
  have "elements (doExecute \<lparr>batch = None\<rparr> heading1_command example_doc) 1 = elements example_doc 1"
    by simp
  ultimately show ?thesis using v t by simp
qed

text \<open>
  C1 as stated fails: block 1 is selected and eligible for \<open>heading1\<close>, the flag is true, and
  the block is still a \<open>heading2\<close> afterwards, since the loop reverts only blocks that have
  the command's own element name.
\<close>

theorem doExecute_remove_counterexample:
  "value (changesDone (HeadingCommand ''heading1'') example_doc) \<and>
   1 \<in> set (selectedBlocks example_doc) \<and>
   checkCanBecomeHeading (elements example_doc 1)
     (modelElement (changesDone (HeadingCommand ''heading1'') example_doc))
     (schema example_doc) \<and>
   name (elements (doExecute \<lparr>batch = None\<rparr>
      (changesDone (HeadingCommand ''heading1'') example_doc) example_doc) 1) = ''heading2''"
  by (simp add: doExecute_elements changesDone_def refreshState_def refreshValue_def
      HeadingCommand_def first_def example_doc_def example_elements_def element_is_def
      checkCanBecomeHeading_def createBefore_def root_schema_def)

subsection \<open>Blocks that fail the schema check\<close>

text \<open>
  C7. Whatever the value flag, a selected block that fails the schema check for the command's
  element is left exactly as it was by \<open>_doExecute\<close>, and no rename of it is recorded. The
  function has no failing branch: it returns the document for every input.
\<close>

theorem doExecute_skips_ineligible:
  assumes "block \<in> set (selectedBlocks doc)"
    and "\<not> checkCanBecomeHeading (elements doc block) (modelElement cmd) (schema doc)"
  shows "elements (doExecute opts cmd doc) block = elements doc block \<and>
    block \<notin> (fst \<circ> snd) ` set (new_deltas doc (doExecute opts cmd doc))"
proof -
  have "elements (doExecute opts cmd doc) block = elements doc block"
    using assms by (simp add: doExecute_elements)
  moreover have "block \<notin> (fst \<circ> snd) ` set (new_deltas doc (doExecute opts cmd doc))"
    using assms doExecute_new_deltas [of opts cmd doc] by auto
  ultimately show ?thesis by blast
qed

text \<open>
  At the concrete document the nested paragraph stays as it is, both when \<open>heading3\<close> is
  applied and when \<open>heading1\<close> is removed.
\<close>

theorem doExecute_skips_ineligible_witness:
  "3 \<in> set (selectedBlocks example_doc) \<and>
   \<not> checkCanBecomeHeading (elements example_doc 3) (modelElement heading3_command)
       (schema example_doc) \<and>
   elements (doExecute \<lparr>batch = None\<rparr> heading3_command example_doc) 3 =
     \<lparr>name = ''paragraph'', path = [3, 0]\<rparr> \<and>
   elements (doExecute \<lparr>batch = Some 7\<rparr> heading1_command example_doc) 3 =
     \<lparr>name = ''paragraph'', path = [3, 0]\<rparr>"
proof -
  have a: "3 \<in> set (selectedBlocks example_doc)" by (simp add: example_defs)
  have b: "\<not> checkCanBecomeHeading (elements example_doc 3) (modelElement heading3_command)
       (schema example_doc)"
    "\<not> checkCanBecomeHeading (elements example_doc 3) (modelElement heading1_command)
       (schema example_doc)"
    by (simp_all add: example_defs)
  have c: "elements example_doc 3 = \<lparr>name = ''paragraph'', path = [3, 0]\<rparr>"
    by (simp add: example_defs)
  from doExecute_skips_ineligible [OF a b(1), of "\<lparr>batch = None\<rparr>"]
    doExecute_skips_ineligible [OF a b(2), of "\<lparr>batch = Some 7\<rparr>"]
  show ?thesis using a b c by simp
qed

subsection \<open>The batch\<close>

text \<open>
  C8. One invocation of \<open>_doExecute\<close> only adds renames to the history, and every rename it
  adds is in one batch: the batch of the options when the caller gave one, and then no batch
  is created, otherwise the one fresh batch that the invocation creates. When the heading is
  removed, that same batch is the one handed to every delegated paragraph command.
\<close>

theorem doExecute_single_batch:
  "deltas (doExecute opts cmd doc) = deltas doc @ new_deltas doc (doExecute opts cmd doc) \<and>
   (\<forall>d\<in>set (new_deltas doc (doExecute opts cmd doc)).
      fst d = (case batch opts of Some b \<Rightarrow> b | None \<Rightarrow> fst (document_batch doc))) \<and>
   batches (doExecute opts cmd doc) =
     (case batch opts of Some b \<Rightarrow> batches doc | None \<Rightarrow> Suc (batches doc)) \<and>
   (value cmd \<longrightarrow>
      doExecute opts cmd doc =
        revert_each_in_own_range
          (case batch opts of Some b \<Rightarrow> b | None \<Rightarrow> fst (document_batch doc))
          (target_blocks cmd doc)
          (case batch opts of Some b \<Rightarrow> doc | None \<Rightarrow> snd (document_batch doc)))"
proof -
  have c: "chosen_batch opts doc =
      (case batch opts of Some b \<Rightarrow> b | None \<Rightarrow> fst (document_batch doc),
       case batch opts of Some b \<Rightarrow> doc | None \<Rightarrow> snd (document_batch doc))"
    by (simp add: chosen_batch_def split: option.splits)
  have "deltas (doExecute opts cmd doc) = deltas doc @ new_deltas doc (doExecute opts cmd doc)"
    using doExecute_new_deltas [of opts cmd doc] by blast
  moreover have "\<forall>d\<in>set (new_deltas doc (doExecute opts cmd doc)).
      fst d = (case batch opts of Some b \<Rightarrow> b | None \<Rightarrow> fst (document_batch doc))"
    using doExecute_new_deltas [of opts cmd doc] by (simp add: c)
  moreover have "batches (doExecute opts cmd doc) =
     (case batch opts of Some b \<Rightarrow> batches doc | None \<Rightarrow> Suc (batches doc))"
    by (simp add: doExecute_frame)
  moreover have "value cmd \<longrightarrow>
      doExecute opts cmd doc =
        revert_each_in_own_range
          (case batch opts of Some b \<Rightarrow> b | None \<Rightarrow> fst (document_batch doc))
          (target_blocks cmd doc)
          (case batch opts of Some b \<Rightarrow> doc | None \<Rightarrow> snd (document_batch doc))"
    using doExecute_remove_eq [of cmd opts doc] by (simp add: c)
  ultimately show ?thesis by blast
qed

text \<open>
  At the concrete document: with batch 7 supplied, the three renames to \<open>heading3\<close> are in
  batch 7 and no batch is created; with none supplied, the revert of block 0 is in the fresh
  batch 0 and one batch has been created.
\<close>

theorem doExecute_single_batch_witness:
  "new_deltas example_doc (doExecute \<lparr>batch = Some 7\<rparr> heading3_command example_doc) =
     [(7, 0, ''heading3''), (7, 1, ''heading3''), (7, 2, ''heading3'')] \<and>
   batches (doExecute \<lparr>batch = Some 7\<rparr> heading3_command example_doc) = 0 \<and>
   new_deltas example_doc (doExecute \<lparr>batch = None\<rparr> heading1_command example_doc) =
     [(0, 0, ''paragraph'')] \<and>
   batches (doExecute \<lparr>batch = None\<rparr> heading1_command example_doc) = 1"
proof -
  have d: "deltas example_doc = []" "batches example_doc = 0"
    by (simp_all add: example_doc_def)
  from doExecute_single_batch [of "\<lparr>batch = Some 7\<rparr>" heading3_command example_doc]
    doExecute_single_batch [of "\<lparr>batch = None\<rparr>" heading1_command example_doc]
  show ?thesis using d example_runs by simp
qed

subsection \<open>Toggling twice\<close>

text \<open>
  C6, as amended. Let the selection be one block B that is eligible for the command's element
  T and does not have the name T, let T not be the default type \<open>paragraph\<close>, and let the
  value flag be up to date. Then one execution renames B to T and the flag becomes true; a
  second execution on the same selection reverts B to \<open>paragraph\<close> and the flag becomes
  false.
\<close>

theorem toggle_twice:
  assumes "selectedBlocks doc = [B]"
    and "checkCanBecomeHeading (elements doc B) (modelElement cmd) (schema doc)"
    and "\<not> element_is (elements doc B) (modelElement cmd)"
    and "modelElement cmd \<noteq> ''paragraph''"
    and "value cmd = value (refreshValue cmd doc)"
  shows "name (elements (snd (execute opts (cmd, doc))) B) = modelElement cmd \<and>
    value (fst (execute opts (cmd, doc))) \<and>
    selectedBlocks (snd (execute opts (cmd, doc))) = [B] \<and>
    name (elements (snd (execute opts' (execute opts (cmd, doc)))) B) = ''paragraph'' \<and>
    \<not> value (fst (execute opts' (execute opts (cmd, doc))))"
proof -
  define doc1 where "doc1 = doExecute opts cmd doc"
  define cmd1 where "cmd1 = changesDone cmd doc1"
  define doc2 where "doc2 = doExecute opts' cmd1 doc1"
  define cmd2 where "cmd2 = changesDone cmd1 doc2"
  have e1: "execute opts (cmd, doc) = (cmd1, doc1)"
    by (simp add: execute_def Let_def cmd1_def doc1_def)
  have e2: "execute opts' (cmd1, doc1) = (cmd2, doc2)"
    by (simp add: execute_def Let_def cmd2_def doc2_def)
  have v0: "\<not> value cmd"
    using assms by (simp add: refreshValue_def first_def)
  have el1: "elements doc1 B = (elements doc B)\<lparr>name := modelElement cmd\<rparr>"
    using assms v0 by (simp add: doc1_def doExecute_elements)
  have fr1: "selectedBlocks doc1 = [B]" "schema doc1 = schema doc"
    using assms by (simp_all add: doc1_def doExecute_frame)
  have m1: "modelElement cmd1 = modelElement cmd"
    by (simp add: cmd1_def changesDone_fields)
  have v1: "value cmd1"
    using el1 fr1 by (simp add: cmd1_def changesDone_fields element_is_def)
  have elig1: "checkCanBecomeHeading (elements doc1 B) (modelElement cmd1) (schema doc1)"
    using assms(2) el1 fr1 m1 by (simp add: checkCanBecomeHeading_def createBefore_def)
  have el2: "elements doc2 B = (elements doc1 B)\<lparr>name := ''paragraph''\<rparr>"
    using v1 elig1 fr1 el1 m1 by (simp add: doc2_def doExecute_elements element_is_def)
  have fr2: "selectedBlocks doc2 = [B]"
    using fr1 by (simp add: doc2_def doExecute_frame)
  have v2: "\<not> value cmd2"
    using el2 fr2 m1 assms(4) by (simp add: cmd2_def changesDone_fields element_is_def)
  show ?thesis
    using el1 v1 fr1 el2 v2 by (simp add: e1 e2)
qed

text \<open>
  With only the root paragraph selected and a new \<open>heading1\<close> command: \<open>heading1\<close> and a
  true flag after one execution, \<open>paragraph\<close> and a false flag after two.
\<close>

theorem toggle_twice_witness:
  "name (elements (snd (execute \<lparr>batch = None\<rparr>
      (HeadingCommand ''heading1'', paragraph_only_doc))) 2) = ''heading1'' \<and>
   value (fst (execute \<lparr>batch = None\<rparr> (HeadingCommand ''heading1'', paragraph_only_doc))) \<and>
   name (elements (snd (execute \<lparr>batch = None\<rparr> (execute \<lparr>batch = None\<rparr>
      (HeadingCommand ''heading1'', paragraph_only_doc)))) 2) = ''paragraph'' \<and>
   \<not> value (fst (execute \<lparr>batch = None\<rparr> (execute \<lparr>batch = None\<rparr>
      (HeadingCommand ''heading1'', paragraph_only_doc))))"
proof -
  have a: "selectedBlocks paragraph_only_doc = [2]"
    by (simp add: paragraph_only_doc_def)
  have b: "checkCanBecomeHeading (elements paragraph_only_doc 2)
      (modelElement (HeadingCommand ''heading1'')) (schema paragraph_only_doc)"
    by (simp add: paragraph_only_doc_def example_defs)
  have c: "\<not> element_is (elements paragraph_only_doc 2)
      (modelElement (HeadingCommand ''heading1''))"
    by (simp add: paragraph_only_doc_def example_defs)
  have d: "modelElement (HeadingCommand ''heading1'') \<noteq> ''paragraph''"
    by (simp add: HeadingCommand_def)
  have e: "value (HeadingCommand ''heading1'') =
      value (refreshValue (HeadingCommand ''heading1'') paragraph_only_doc)"
    by (simp add: paragraph_only_doc_def example_defs)
  from toggle_twice [OF a b c d e, of "\<lparr>batch = None\<rparr>" "\<lparr>batch = None\<rparr>"]
  show ?thesis by (simp add: HeadingCommand_def)
qed

text \<open>
  C6 as stated fails for a block that already has the type T: with only the \<open>heading1\<close> block
  selected, that block is eligible for \<open>heading1\<close> and the flag is true, and the first
  execution reverts the block to \<open>paragraph\<close> and leaves the flag false.
\<close>

theorem toggle_twice_counterexample:
  "selectedBlocks heading_only_doc = [0] \<and>
   checkCanBecomeHeading (elements heading_only_doc 0) ''heading1'' (schema heading_only_doc) \<and>
   changesDone (HeadingCommand ''heading1'') heading_only_doc =
     \<lparr>modelElement = ''heading1'', value = True, isEnabled = True\<rparr> \<and>
   name (elements (snd (execute \<lparr>batch = None\<rparr>
      (changesDone (HeadingCommand ''heading1'') heading_only_doc, heading_only_doc))) 0) =
     ''paragraph'' \<and>
   \<not> value (fst (execute \<lparr>batch = None\<rparr>
      (changesDone (HeadingCommand ''heading1'') heading_only_doc, heading_only_doc)))"
  by (simp add: execute_unfold changesDone_fields doExecute_elements doExecute_frame
      heading_only_doc_def example_defs)

section \<open>Properties of the conversion registration\<close>

lemma init_tables:
  "modelToView (init editor) =
     modelToView editor @ [(''heading1'', ''h2''), (''heading2'', ''h3''), (''heading3'', ''h4'')] \<and>
   viewToModel (init editor) =
     viewToModel editor @ [(''h2'', ''heading1''), (''h3'', ''heading2''), (''h4'', ''heading3'')] \<and>
   items (init editor) =
     items editor @
       [(''heading1'', ''$block''), (''heading2'', ''$block''), (''heading3'', ''$block'')]"
  by (simp add: init_def BuildViewConverterFor_def BuildModelConverterFor_def registerItem_def)

text \<open>
  C5. On an editor that has no converter yet for the three heading names and the three tags,
  the conversions registered by \<open>init\<close> take \<open>heading1\<close>, \<open>heading2\<close>, \<open>heading3\<close> to
  \<open>h2\<close>, \<open>h3\<close>, \<open>h4\<close> and back: converting a model name to its tag and the tag back yields
  the model name, and likewise from each tag.
\<close>

theorem heading_conversions_roundtrip:
  assumes "\<forall>m\<in>{''heading1'', ''heading2'', ''heading3''}. convertModelToView editor m = None"
    and "\<forall>v\<in>{''h2'', ''h3'', ''h4''}. convertViewToModel editor v = None"
  shows "convertModelToView (init editor) ''heading1'' = Some ''h2'' \<and>
    convertModelToView (init editor) ''heading2'' = Some ''h3'' \<and>
    convertModelToView (init editor) ''heading3'' = Some ''h4'' \<and>
    convertViewToModel (init editor) ''h2'' = Some ''heading1'' \<and>
    convertViewToModel (init editor) ''h3'' = Some ''heading2'' \<and>
    convertViewToModel (init editor) ''h4'' = Some ''heading3'' \<and>
    (\<forall>m\<in>{''heading1'', ''heading2'', ''heading3''}.
       Option.bind (convertModelToView (init editor) m) (convertViewToModel (init editor)) =
         Some m) \<and>
    (\<forall>v\<in>{''h2'', ''h3'', ''h4''}.
       Option.bind (convertViewToModel (init editor) v) (convertModelToView (init editor)) =
         Some v)"
proof -
  have m: "convertModelToView (init editor) ''heading1'' = Some ''h2''"
    "convertModelToView (init editor) ''heading2'' = Some ''h3''"
    "convertModelToView (init editor) ''heading3'' = Some ''h4''"
    using assms(1)
    by (simp_all add: convertModelToView_def init_tables map_add_def)
  have v: "convertViewToModel (init editor) ''h2'' = Some ''heading1''"
    "convertViewToModel (init editor) ''h3'' = Some ''heading2''"
    "convertViewToModel (init editor) ''h4'' = Some ''heading3''"
    using assms(2)
    by (simp_all add: convertViewToModel_def init_tables map_add_def)
  show ?thesis by (simp add: m v)
qed

text \<open>On the editor with the paragraph feature, whose own conversion is kept.\<close>

theorem heading_conversions_roundtrip_witness:
  "convertModelToView paragraph_editor ''heading1'' = None \<and>
   convertViewToModel paragraph_editor ''h2'' = None \<and>
   convertModelToView (init paragraph_editor) ''heading1'' = Some ''h2'' \<and>
   convertViewToModel (init paragraph_editor) ''h2'' = Some ''heading1'' \<and>
   Option.bind (convertModelToView (init paragraph_editor) ''heading2'')
     (convertViewToModel (init paragraph_editor)) = Some ''heading2'' \<and>
   Option.bind (convertViewToModel (init paragraph_editor) ''h4'')
     (convertModelToView (init paragraph_editor)) = Some ''h4'' \<and>
   convertModelToView (init paragraph_editor) ''paragraph'' = Some ''p''"
proof -
  have a: "\<forall>m\<in>{''heading1'', ''heading2'', ''heading3''}.
      convertModelToView paragraph_editor m = None"
    by (simp add: convertModelToView_def paragraph_editor_def)
  have b: "\<forall>v\<in>{''h2'', ''h3'', ''h4''}. convertViewToModel paragraph_editor v = None"
    by (simp add: convertViewToModel_def paragraph_editor_def)
  have c: "convertModelToView (init paragraph_editor) ''paragraph'' = Some ''p''"
    by (simp add: convertModelToView_def init_tables paragraph_editor_def map_add_def)
  from heading_conversions_roundtrip [OF a b] show ?thesis using a b c by simp
qed

section \<open>Properties of the console\<close>

subsection \<open>The callback and the timeouts that come due\<close>

lemma timeout_callback_facts:
  "consoleUpdates (timeout_callback c) = consoleUpdates c - 1 \<and>
   (flagged (timeout_callback c) \<longleftrightarrow> flagged c \<and> consoleUpdates c \<noteq> 1)"
  by (simp add: timeout_callback_def Let_def flagged_def classList_remove_def)

lemma timeout_callback_classList:
  "consoleUpdates c \<noteq> 1 \<Longrightarrow>
   classList (element (timeout_callback c)) = classList (element c)"
  by (simp add: timeout_callback_def Let_def)

lemma run_timeouts_facts:
  assumes "consoleUpdates c = int (length dues)"
  shows "consoleUpdates (snd (run_timeouts t dues c)) = int (length (fst (run_timeouts t dues c))) \<and>
    set (fst (run_timeouts t dues c)) \<subseteq> set dues \<and>
    (fst (run_timeouts t dues c) \<noteq> [] \<longrightarrow>
       classList (element (snd (run_timeouts t dues c))) = classList (element c)) \<and>
    ((\<forall>d\<in>set dues. d \<le> t) \<and> dues \<noteq> [] \<longrightarrow>
       fst (run_timeouts t dues c) = [] \<and> \<not> flagged (snd (run_timeouts t dues c))) \<and>
    ((\<exists>d\<in>set dues. t < d) \<longrightarrow> fst (run_timeouts t dues c) \<noteq> [])"
  using assms
proof (induction dues arbitrary: c)
  case Nil
  then show ?case by simp
next
  case (Cons due dues)
  show ?case
  proof (cases "due \<le> t")
    case False
    with Cons.prems show ?thesis by auto
  next
    case True
    define c1 where "c1 = timeout_callback c"
    have n: "consoleUpdates c1 = int (length dues)"
      using Cons.prems by (simp add: c1_def timeout_callback_facts)
    note ih = Cons.IH [OF n]
    have r: "run_timeouts t (due # dues) c = run_timeouts t dues c1"
      using True by (simp add: c1_def)
    show ?thesis
    proof (cases "dues = []")
      case last: True
      have "consoleUpdates c = 1" using Cons.prems last by simp
      then have "\<not> flagged c1" by (simp add: c1_def timeout_callback_facts)
      with last n True show ?thesis unfolding r by simp
    next
      case more: False
      then have "consoleUpdates c \<noteq> 1" using Cons.prems by (cases dues) simp_all
      then have "classList (element c1) = classList (element c)"
        unfolding c1_def by (rule timeout_callback_classList)
      with ih more True show ?thesis unfolding r by auto
    qed
  qed
qed

lemma run_timeouts_previousData:
  "previousData (snd (run_timeouts t dues c)) = previousData c"
  by (induction dues arbitrary: c) (simp_all add: timeout_callback_def Let_def)

lemma wait_previousData: "previousData (console (wait ms w)) = previousData (console w)"
  by (simp add: wait_def Let_def run_timeouts_previousData)

subsection \<open>An update\<close>

lemma update_fields:
  assumes "previousData (console w) \<noteq> data"
  shows "consoleUpdates (console (update data w)) = consoleUpdates (console w) + 1"
    and "flagged (console (update data w))"
    and "timeouts (update data w) = timeouts w @ [now w + 500]"
    and "now (update data w) = now w"
    and "previousData (console (update data w)) = data"
  using assms
  by (simp_all add: update_def Let_def setTimeout_def classList_add_def flagged_def)

lemma update_same: "update (previousData (console w)) w = w"
  by (simp add: update_def)

subsection \<open>The counter counts the pending timeouts\<close>

lemma counts_pending_open: "counts_pending (open_page el)"
  by (simp add: counts_pending_def open_page_def Console_def)

lemma counts_pending_update:
  assumes "counts_pending w"
  shows "counts_pending (update data w)"
proof (cases "previousData (console w) = data")
  case True
  with assms show ?thesis by (simp add: update_def)
next
  case False
  with assms show ?thesis by (simp add: counts_pending_def update_fields)
qed

lemma counts_pending_wait:
  assumes "counts_pending w"
  shows "counts_pending (wait ms w)"
proof -
  have n: "consoleUpdates (console w) = int (length (timeouts w))"
    using assms by (simp add: counts_pending_def)
  note f = run_timeouts_facts [OF n, of "now w + ms"]
  have "\<forall>d\<in>set (timeouts w). d \<le> now w + 500"
    using assms by (simp add: counts_pending_def list_all_iff)
  with f have "\<forall>d\<in>set (fst (run_timeouts (now w + ms) (timeouts w) (console w))).
      d \<le> now w + ms + 500"
    by fastforce
  with f show ?thesis
    by (simp add: counts_pending_def wait_def Let_def list_all_iff)
qed

lemma counts_pending_run: "counts_pending w \<Longrightarrow> counts_pending (run es w)"
  by (induction es w rule: run.induct) (simp_all add: counts_pending_update counts_pending_wait)

subsection \<open>When the flag goes\<close>

lemma flag_after_update:
  assumes "counts_pending w" and "previousData (console w) \<noteq> data"
  shows "flagged (console (wait ms (update data w))) \<longleftrightarrow> ms < 500"
proof -
  define w1 where "w1 = update data w"
  have cp: "counts_pending w1"
    using assms(1) by (simp add: w1_def counts_pending_update)
  then have n: "consoleUpdates (console w1) = int (length (timeouts w1))"
    by (simp add: counts_pending_def)
  have t1: "timeouts w1 = timeouts w @ [now w + 500]" and n1: "now w1 = now w"
    and f1: "flagged (console w1)"
    using assms(2) by (simp_all add: w1_def update_fields)
  have le: "\<forall>d\<in>set (timeouts w1). d \<le> now w + 500"
    using cp n1 by (simp add: counts_pending_def list_all_iff)
  note f = run_timeouts_facts [OF n, of "now w1 + ms"]
  show ?thesis
  proof (cases "ms < 500")
    case True
    then have "\<exists>d\<in>set (timeouts w1). now w1 + ms < d"
      using t1 n1 by simp
    with f have "classList (element (snd (run_timeouts (now w1 + ms) (timeouts w1) (console w1)))) =
        classList (element (console w1))"
      by blast
    with f1 True show ?thesis
      by (simp add: wait_def Let_def flagged_def w1_def)
  next
    case False
    then have "\<forall>d\<in>set (timeouts w1). d \<le> now w1 + ms"
      using le n1 by fastforce
    moreover have "timeouts w1 \<noteq> []" using t1 by simp
    ultimately have "\<not> flagged (snd (run_timeouts (now w1 + ms) (timeouts w1) (console w1)))"
      using f by blast
    with False show ?thesis
      by (simp add: wait_def Let_def w1_def)
  qed
qed

lemma example_run:
  "run [Update ''a'', Wait 100] (open_page title_console) =
     \<lparr>console = \<lparr>element = \<lparr>classList = [''updated'', ''title-console__title''],
          textContent = [CHR 0x27] @ ''a'' @ [CHR 0x27]\<rparr>,
        consoleUpdates = 1, previousData = ''a''\<rparr>,
      now = 100, timeouts = [500]\<rparr>"
  by (simp add: open_page_def Console_def title_console_def update_def Let_def setTimeout_def
      classList_add_def wait_def)

text \<open>
  C9. In any state \<open>w\<close> that a run of the page reaches: a call of \<open>update\<close> with unchanged
  data does nothing; an update with new data adds one to the counter, sets the flag and sets
  a timeout due 500 ms later; the callback of a timeout takes one from the counter and clears
  the flag exactly when the counter has reached zero, and otherwise leaves the flag as it is;
  the counter is the number of timeouts pending. So, with no further update, the flag set by
  an update is still there before 500 ms have passed and gone from then on; and when a
  further update with new data comes \<open>ms\<close> later, the flag lasts until 500 ms after that
  one, whatever \<open>ms\<close> is.
\<close>

theorem updated_flag_debounce:
  assumes "w = run es (open_page el)" and "previousData (console w) \<noteq> data"
  shows "update (previousData (console w)) w = w \<and>
    consoleUpdates (console (update data w)) = consoleUpdates (console w) + 1 \<and>
    flagged (console (update data w)) \<and>
    timeouts (update data w) = timeouts w @ [now w + 500] \<and>
    (\<forall>c. consoleUpdates (timeout_callback c) = consoleUpdates c - 1 \<and>
       (flagged (timeout_callback c) \<longleftrightarrow>
          flagged c \<and> consoleUpdates (timeout_callback c) \<noteq> 0)) \<and>
    consoleUpdates (console w) = int (length (timeouts w)) \<and>
    (flagged (console (wait ms (update data w))) \<longleftrightarrow> ms < 500) \<and>
    (data' \<noteq> data \<longrightarrow>
       (flagged (console (wait ms' (update data' (wait ms (update data w))))) \<longleftrightarrow> ms' < 500))"
proof -
  have cp: "counts_pending w"
    using assms(1) by (simp add: counts_pending_run counts_pending_open)
  have "\<forall>c. consoleUpdates (timeout_callback c) = consoleUpdates c - 1 \<and>
       (flagged (timeout_callback c) \<longleftrightarrow>
          flagged c \<and> consoleUpdates (timeout_callback c) \<noteq> 0)"
    by (simp add: timeout_callback_facts)
  moreover have "consoleUpdates (console w) = int (length (timeouts w))"
    using cp by (simp add: counts_pending_def)
  moreover have "flagged (console (wait ms (update data w))) \<longleftrightarrow> ms < 500"
    using cp assms(2) by (rule flag_after_update)
  moreover have "data' \<noteq> data \<longrightarrow>
       (flagged (console (wait ms' (update data' (wait ms (update data w))))) \<longleftrightarrow> ms' < 500)"
  proof
    assume d: "data' \<noteq> data"
    have "counts_pending (wait ms (update data w))"
      using cp by (simp add: counts_pending_update counts_pending_wait)
    moreover have "previousData (console (wait ms (update data w))) \<noteq> data'"
      using d assms(2) by (simp add: wait_previousData update_fields)
    ultimately show "flagged (console (wait ms' (update data' (wait ms (update data w))))) \<longleftrightarrow>
        ms' < 500"
      by (rule flag_after_update)
  qed
  ultimately show ?thesis
    using assms(2) by (simp add: update_same update_fields)
qed

text \<open>
  A run: an update at 0 ms, a second at 100 ms. The counter is 2 and the timeouts are due at
  500 and 600 ms; at 550 ms, after the first timeout, the flag is still set; at 600 ms it is
  gone.
\<close>

theorem updated_flag_debounce_witness:
  "consoleUpdates (console (update ''b'' (run [Update ''a'', Wait 100] (open_page title_console))))
     = 2 \<and>
   timeouts (update ''b'' (run [Update ''a'', Wait 100] (open_page title_console))) = [500, 600] \<and>
   flagged (console (wait 450 (update ''b''
     (run [Update ''a'', Wait 100] (open_page title_console))))) \<and>
   \<not> flagged (console (wait 500 (update ''b''
     (run [Update ''a'', Wait 100] (open_page title_console)))))"
proof -
  have p: "previousData (console (run [Update ''a'', Wait 100] (open_page title_console))) \<noteq> ''b''"
    by (simp add: example_run del: run.simps)
  from updated_flag_debounce [OF refl p, of 450] updated_flag_debounce [OF refl p, of 500]
  show ?thesis by (simp add: example_run del: run.simps)
qed

end
